theory Spec2Isabelle
  imports Complex_Main
begin

section \<open>Configuration\<close>

text \<open>
  The object \<^verbatim>\<open>CONFIG\<close> of \<^verbatim>\<open>script.js\<close>. The literal \<^verbatim>\<open>0.3\<close> is a double; no double
  lies strictly between it and the rational 3/10, and 3/10 itself is not a double, so
  for every double \<open>u\<close> the test \<^verbatim>\<open>u > 0.3\<close> of the program and the test \<open>u > 3/10\<close> of
  the model agree.
\<close>

record GameConfig =
  CELL_SIZE :: nat
  FRAME_DELAY :: nat
  INITIAL_ALIVE_PROBABILITY :: real
  COLORS :: "nat \<rightharpoonup> string"

definition CONFIG :: GameConfig where
  "CONFIG = \<lparr>CELL_SIZE = 10, FRAME_DELAY = 500, INITIAL_ALIVE_PROBABILITY = 3 / 10,
     COLORS = [0 \<mapsto> ''#9be9a8'', 1 \<mapsto> ''#40c463'', 2 \<mapsto> ''#30a14e'', 3 \<mapsto> ''#216e39'']\<rparr>"

section \<open>JavaScript values the grid code relies on\<close>

text \<open>
  The only exception the grid code can raise is the \<^verbatim>\<open>TypeError\<close> of reading a property
  of \<^verbatim>\<open>undefined\<close>.
\<close>

datatype error = TypeError

type_synonym Grid = "bool list list"

text \<open>
  The remainder operator \<^verbatim>\<open>%\<close> on integers: the result takes the sign of the dividend,
  and a zero divisor gives \<^verbatim>\<open>NaN\<close> (here \<open>None\<close>).
\<close>

definition js_rem :: "int \<Rightarrow> int \<Rightarrow> int option" where
  "js_rem a b = (if b = 0 then None else Some (sgn a * (\<bar>a\<bar> mod \<bar>b\<bar>)))"

text \<open>
  Reading \<^verbatim>\<open>xs[k]\<close> from an array: \<^verbatim>\<open>undefined\<close> (here \<open>None\<close>) when the key is \<^verbatim>\<open>NaN\<close>,
  negative or past the end.
\<close>

definition js_index :: "'a list \<Rightarrow> int option \<Rightarrow> 'a option" where
  "js_index xs k =
     (case k of
        None \<Rightarrow> None
      | Some n \<Rightarrow> if 0 \<le> n \<and> n < int (length xs) then Some (xs ! nat n) else None)"

section \<open>Counting neighbours\<close>

text \<open>
  One pass through the body of the inner loop of \<^verbatim>\<open>countNeighbors\<close> after the
  \<^verbatim>\<open>continue\<close> test: whether \<^verbatim>\<open>this.grid[newRow][newCol]\<close> is truthy.
  \<^verbatim>\<open>this.grid[0].length\<close> throws when the grid has no row, and
  \<^verbatim>\<open>this.grid[newRow][newCol]\<close> throws when \<^verbatim>\<open>this.grid[newRow]\<close> is undefined; an
  undefined cell is falsy.
\<close>

definition probe :: "Grid \<Rightarrow> int \<Rightarrow> int \<Rightarrow> int \<Rightarrow> int \<Rightarrow> error + bool" where
  "probe g row col i j =
     (case g of
        [] \<Rightarrow> Inl TypeError
      | row0 # _ \<Rightarrow>
          (let newRow = js_rem (row + i + int (length g)) (int (length g));
               newCol = js_rem (col + j + int (length row0)) (int (length row0))
           in case js_index g newRow of
                None \<Rightarrow> Inl TypeError
              | Some r \<Rightarrow> Inr (case js_index r newCol of None \<Rightarrow> False | Some b \<Rightarrow> b)))"

fun inner_loop :: "Grid \<Rightarrow> int \<Rightarrow> int \<Rightarrow> int \<Rightarrow> int list \<Rightarrow> nat \<Rightarrow> error + nat" where
  "inner_loop g row col i [] count = Inr count"
| "inner_loop g row col i (j # js) count =
     (if i = 0 \<and> j = 0 then inner_loop g row col i js count
      else case probe g row col i j of
             Inl e \<Rightarrow> Inl e
           | Inr alive \<Rightarrow> inner_loop g row col i js (if alive then count + 1 else count))"

fun outer_loop :: "Grid \<Rightarrow> int \<Rightarrow> int \<Rightarrow> int list \<Rightarrow> nat \<Rightarrow> error + nat" where
  "outer_loop g row col [] count = Inr count"
| "outer_loop g row col (i # is) count =
     (case inner_loop g row col i [-1, 0, 1] count of
        Inl e \<Rightarrow> Inl e
      | Inr count' \<Rightarrow> outer_loop g row col is count')"

text \<open>\<^verbatim>\<open>countNeighbors(row, col)\<close>; the grid argument is the field \<^verbatim>\<open>this.grid\<close> it reads.\<close>

definition countNeighbors :: "Grid \<Rightarrow> int \<Rightarrow> int \<Rightarrow> error + nat" where
  "countNeighbors g row col = outer_loop g row col [-1, 0, 1] 0"

section \<open>The next generation\<close>

text \<open>
  \<^verbatim>\<open>Array.prototype.map\<close> with a callback that may throw: the elements are visited in
  index order and the first exception ends the call.
\<close>

fun mapE :: "('a \<Rightarrow> error + 'b) \<Rightarrow> 'a list \<Rightarrow> error + 'b list" where
  "mapE f [] = Inr []"
| "mapE f (x # xs) =
     (case f x of
        Inl e \<Rightarrow> Inl e
      | Inr y \<Rightarrow> (case mapE f xs of Inl e \<Rightarrow> Inl e | Inr ys \<Rightarrow> Inr (y # ys)))"

text \<open>
  The right-hand side of the assignment in \<^verbatim>\<open>update\<close>. The method it calls through
  \<^verbatim>\<open>this\<close> is a parameter, so that a property can speak of whether it is called at all;
  the program passes \<^verbatim>\<open>countNeighbors\<close> reading the grid being mapped.
\<close>

definition update_with :: "(int \<Rightarrow> int \<Rightarrow> error + nat) \<Rightarrow> Grid \<Rightarrow> error + Grid" where
  "update_with cn g =
     mapE (\<lambda>(i, row).
             mapE (\<lambda>(j, cell).
                     case cn (int i) (int j) of
                       Inl e \<Rightarrow> Inl e
                     | Inr neighbors \<Rightarrow> Inr (neighbors = 3 \<or> (cell \<and> neighbors = 2)))
               (enumerate 0 row))
       (enumerate 0 g)"

section \<open>Drawing\<close>

text \<open>One \<^verbatim>\<open>roundRect\<close> and \<^verbatim>\<open>fill\<close> on the canvas, with the fill style assigned before it.\<close>

record rect =
  fillStyle :: "string option"
  rect_x :: nat
  rect_y :: nat
  rect_w :: nat
  rect_h :: nat
  radii :: nat

definition drawCell :: "nat \<Rightarrow> nat \<Rightarrow> nat \<Rightarrow> rect" where
  "drawCell row col neighbors =
     \<lparr>fillStyle = COLORS CONFIG (min 3 neighbors),
      rect_x = col * CELL_SIZE CONFIG,
      rect_y = row * CELL_SIZE CONFIG,
      rect_w = CELL_SIZE CONFIG - 1,
      rect_h = CELL_SIZE CONFIG - 1,
      radii = 2\<rparr>"

text \<open>
  What \<^verbatim>\<open>draw\<close> paints after \<^verbatim>\<open>clearRect\<close>: the rectangles of the two nested
  \<^verbatim>\<open>forEach\<close>, in the order painted.
\<close>

definition draw_with :: "(int \<Rightarrow> int \<Rightarrow> error + nat) \<Rightarrow> Grid \<Rightarrow> error + rect list" where
  "draw_with cn g =
     (case mapE (\<lambda>(i, row).
                   case mapE (\<lambda>(j, cell).
                                if cell
                                then (case cn (int i) (int j) of
                                        Inl e \<Rightarrow> Inl e
                                      | Inr neighbors \<Rightarrow> Inr [drawCell i j neighbors])
                                else Inr [])
                          (enumerate 0 row) of
                     Inl e \<Rightarrow> Inl e
                   | Inr painted \<Rightarrow> Inr (concat painted))
             (enumerate 0 g) of
        Inl e \<Rightarrow> Inl e
      | Inr painted \<Rightarrow> Inr (concat painted))"

section \<open>The game object and its environment\<close>

text \<open>
  The fields of the \<^verbatim>\<open>GameOfLife\<close> instance together with what its methods read and
  write outside it: the size of the window and of the canvas, the remaining results of
  \<^verbatim>\<open>Math.random()\<close> (\<open>draws k\<close> is the result of the \<open>k\<close>-th call from now), what each
  call of \<^verbatim>\<open>draw\<close> painted (oldest first), and the delays of the \<^verbatim>\<open>gameLoop\<close> callbacks
  handed to \<^verbatim>\<open>setTimeout\<close> that have not run yet (oldest first).
\<close>

record world =
  isRunning :: bool
  grid :: Grid
  innerWidth :: nat
  innerHeight :: nat
  canvas_width :: nat
  canvas_height :: nat
  draws :: "nat \<Rightarrow> real"
  frames :: "rect list list"
  scheduled :: "nat list"

definition calculateGridDimensions :: "world \<Rightarrow> nat \<times> nat" where
  "calculateGridDimensions s =
     (innerHeight s div CELL_SIZE CONFIG, innerWidth s div CELL_SIZE CONFIG)"

text \<open>
  \<^verbatim>\<open>initGrid\<close>: the callbacks run row by row, so the cell in row \<open>r\<close> and column \<open>c\<close>
  takes the result of call number \<open>r * cols + c\<close> of \<^verbatim>\<open>Math.random()\<close>.
\<close>

definition initGrid :: "world \<Rightarrow> world" where
  "initGrid s =
     (case calculateGridDimensions s of
        (rows, cols) \<Rightarrow>
          s\<lparr>grid :=
               map (\<lambda>r. map (\<lambda>c. draws s (r * cols + c) > INITIAL_ALIVE_PROBABILITY CONFIG)
                          [0..<cols])
                 [0..<rows],
            draws := (\<lambda>k. draws s (rows * cols + k))\<rparr>)"

definition initializeCanvas :: "world \<Rightarrow> world" where
  "initializeCanvas s = initGrid (s\<lparr>canvas_width := innerWidth s, canvas_height := innerHeight s\<rparr>)"

definition draw :: "world \<Rightarrow> error + world" where
  "draw s =
     (case draw_with (countNeighbors (grid s)) (grid s) of
        Inl e \<Rightarrow> Inl e
      | Inr painted \<Rightarrow> Inr (s\<lparr>frames := frames s @ [painted]\<rparr>))"

definition update :: "world \<Rightarrow> error + world" where
  "update s =
     (case update_with (countNeighbors (grid s)) (grid s) of
        Inl e \<Rightarrow> Inl e
      | Inr g \<Rightarrow> Inr (s\<lparr>grid := g\<rparr>))"

definition gameLoop :: "world \<Rightarrow> error + world" where
  "gameLoop s =
     (if isRunning s
      then (case update s of
              Inl e \<Rightarrow> Inl e
            | Inr s1 \<Rightarrow>
                (case draw s1 of
                   Inl e \<Rightarrow> Inl e
                 | Inr s2 \<Rightarrow> Inr (s2\<lparr>scheduled := scheduled s2 @ [FRAME_DELAY CONFIG]\<rparr>)))
      else Inr s)"

definition toggle :: "world \<Rightarrow> error + world" where
  "toggle s =
     (let s1 = s\<lparr>isRunning := \<not> isRunning s\<rparr>
      in if isRunning s1 then gameLoop s1 else Inr s1)"

definition reset :: "world \<Rightarrow> error + world" where
  "reset s = draw (initGrid (s\<lparr>isRunning := False\<rparr>))"

text \<open>
  The constructor, for a window of the given size and the given results of
  \<^verbatim>\<open>Math.random()\<close>; a canvas starts 300 by 150 pixels. The script paints the new game
  once after building it.
\<close>

definition new_GameOfLife :: "nat \<Rightarrow> nat \<Rightarrow> (nat \<Rightarrow> real) \<Rightarrow> world" where
  "new_GameOfLife width height random =
     initializeCanvas
       \<lparr>isRunning = False, grid = [], innerWidth = width, innerHeight = height,
        canvas_width = 300, canvas_height = 150, draws = random, frames = [], scheduled = []\<rparr>"

definition load :: "nat \<Rightarrow> nat \<Rightarrow> (nat \<Rightarrow> real) \<Rightarrow> error + world" where
  "load width height random = draw (new_GameOfLife width height random)"

text \<open>
  What the browser can do to the page: a click on either control, a resize of the window
  to a new width and height, and the oldest scheduled callback coming due.
\<close>

datatype event = ToggleGame | ResetGame | Resize nat nat | Tick

fun fire :: "world \<Rightarrow> event \<Rightarrow> error + world" where
  "fire s ToggleGame = toggle s"
| "fire s ResetGame = reset s"
| "fire s (Resize width height) =
     Inr (initializeCanvas (s\<lparr>innerWidth := width, innerHeight := height\<rparr>))"
| "fire s Tick =
     (case scheduled s of
        [] \<Rightarrow> Inr s
      | _ # later \<Rightarrow> gameLoop (s\<lparr>scheduled := later\<rparr>))"

fun run :: "world \<Rightarrow> event list \<Rightarrow> error + world" where
  "run s [] = Inr s"
| "run s (e # es) = (case fire s e of Inl err \<Rightarrow> Inl err | Inr s' \<Rightarrow> run s' es)"

section \<open>Notions used to state the properties\<close>

text \<open>A grid is rectangular when every row is as long as the first one.\<close>

definition rectangular :: "Grid \<Rightarrow> bool" where
  "rectangular g = (case g of [] \<Rightarrow> True | row0 # rest \<Rightarrow> list_all (\<lambda>r. length r = length row0) rest)"

text \<open>The coordinates of the cells of a grid, row by row and column by column.\<close>

definition row_major :: "Grid \<Rightarrow> (nat \<times> nat) list" where
  "row_major g = concat (map (\<lambda>(i, row). map (\<lambda>j. (i, j)) [0..<length row]) (enumerate 0 g))"

definition col_major :: "Grid \<Rightarrow> (nat \<times> nat) list" where
  "col_major g =
     concat (map (\<lambda>j. map (\<lambda>i. (i, j)) (filter (\<lambda>i. j < length (g ! i)) [0..<length g]))
               [0..<foldr max (map length g) 0])"

text \<open>
  The step as the specification words it, for a traversal that visits the cells in a
  given order: each visited cell of the grid under construction is set from the neighbour
  count and the state of that cell in the prior grid, which is never written.
\<close>

fun step_in_order :: "Grid \<Rightarrow> (nat \<times> nat) list \<Rightarrow> Grid \<Rightarrow> error + Grid" where
  "step_in_order prior [] next = Inr next"
| "step_in_order prior ((row, col) # rest) next =
     (case countNeighbors prior (int row) (int col) of
        Inl e \<Rightarrow> Inl e
      | Inr n \<Rightarrow>
          step_in_order prior rest
            (next[row := (next ! row)[col := (n = 3 \<or> (prior ! row ! col \<and> n = 2))]]))"

text \<open>
  The cell that \<^verbatim>\<open>countNeighbors\<close> reaches from \<open>(row, col)\<close> by the offset \<open>(i, j)\<close> when
  its row lookup succeeds, and the number of live ones among the eight offsets.
\<close>

definition reached :: "Grid \<Rightarrow> int \<Rightarrow> int \<Rightarrow> int \<Rightarrow> int \<Rightarrow> bool" where
  "reached g row col i j =
     (case js_index (g ! nat ((row + i + int (length g)) mod int (length g)))
             (js_rem (col + j + int (length (hd g))) (int (length (hd g)))) of
        None \<Rightarrow> False
      | Some b \<Rightarrow> b)"

definition live_around :: "Grid \<Rightarrow> int \<Rightarrow> int \<Rightarrow> nat" where
  "live_around g row col =
     length (filter (\<lambda>(i, j). reached g row col i j)
       [(-1, -1), (-1, 0), (-1, 1), (0, -1), (0, 1), (1, -1), (1, 0), (1, 1)])"

definition next_cells :: "Grid \<Rightarrow> Grid" where
  "next_cells g =
     map (\<lambda>(i, row).
            map (\<lambda>(j, cell). live_around g (int i) (int j) = 3
                            \<or> (cell \<and> live_around g (int i) (int j) = 2))
              (enumerate 0 row))
       (enumerate 0 g)"

definition painting :: "Grid \<Rightarrow> rect list" where
  "painting g =
     concat (map (\<lambda>(i, row).
                    concat (map (\<lambda>(j, cell).
                                   if cell then [drawCell i j (live_around g (int i) (int j))]
                                   else [])
                              (enumerate 0 row)))
               (enumerate 0 g))"

text \<open>
  Two pages used as concrete inputs: a window of 30 by 30 pixels whose 3 by 3 grid holds
  three live cells in an L, stopped and running, and a window narrower than one cell.
\<close>

definition page_stopped :: world where
  "page_stopped =
     \<lparr>isRunning = False,
      grid = [[True, True, False], [True, False, False], [False, False, False]],
      innerWidth = 30, innerHeight = 30, canvas_width = 30, canvas_height = 30,
      draws = (\<lambda>k. if even k then 1 / 2 else 1 / 8),
      frames = [], scheduled = []\<rparr>"

definition page_running :: world where
  "page_running = page_stopped\<lparr>isRunning := True, scheduled := [FRAME_DELAY CONFIG]\<rparr>"

definition page_narrow :: world where
  "page_narrow = page_stopped\<lparr>grid := [], innerWidth := 7, innerHeight := 25\<rparr>"

definition page_two_cells :: "real \<Rightarrow> real \<Rightarrow> world" where
  "page_two_cells u0 u1 =
     page_stopped\<lparr>innerWidth := 20, innerHeight := 10, draws := (\<lambda>k. if k = 0 then u0 else u1)\<rparr>"

text \<open>
  What can be observed of the controller after a call: the running flag, the grid, the
  number of frames painted so far and the callbacks still scheduled; nothing when the
  call threw.
\<close>

definition observe :: "error + world \<Rightarrow> (bool \<times> Grid \<times> nat \<times> nat list) option" where
  "observe r =
     (case r of
        Inl e \<Rightarrow> None
      | Inr s \<Rightarrow> Some (isRunning s, grid s, length (frames s), scheduled s))"

section \<open>The neighbour count on the cells of a grid\<close>

lemma js_rem_nonneg: "0 \<le> a \<Longrightarrow> 0 < b \<Longrightarrow> js_rem a b = Some (a mod b)"
  by (simp add: js_rem_def sgn_if)

lemma probe_row_ok:
  assumes "g \<noteq> []" "- int (length g) < row" "i \<in> {-1, 0, 1}"
  shows "probe g row col i j = Inr (reached g row col i j)"
proof -
  obtain row0 rest where g: "g = row0 # rest" using assms(1) by (cases g) auto
  let ?n = "int (length g)"
  have pos: "0 < ?n" using assms(1) by simp
  have nn: "0 \<le> row + i + ?n" using assms(2,3) by auto
  have r: "js_rem (row + i + ?n) ?n = Some ((row + i + ?n) mod ?n)"
    using js_rem_nonneg[OF nn pos] .
  have lt: "(row + i + ?n) mod ?n < ?n" "0 \<le> (row + i + ?n) mod ?n" using pos by simp_all
  have "js_index g (Some ((row + i + ?n) mod ?n)) = Some (g ! nat ((row + i + ?n) mod ?n))"
    using lt by (simp add: js_index_def)
  then show ?thesis
    using r g by (simp add: probe_def reached_def Let_def)
qed

lemma countNeighbors_from_row:
  assumes "g \<noteq> []" "- int (length g) < row"
  shows "countNeighbors g row col = Inr (live_around g row col)"
  using assms by (simp add: countNeighbors_def live_around_def probe_row_ok)

lemma countNeighbors_in_rows:
  assumes "0 \<le> row" "row < int (length g)"
  shows "countNeighbors g row col = Inr (live_around g row col)"
proof (rule countNeighbors_from_row)
  show "g \<noteq> []" using assms by auto
  show "- int (length g) < row" using assms by linarith
qed



text \<open>
  C8. In the 3 by 3 grid whose only live cell is (0,0), \<^verbatim>\<open>countNeighbors(2, 2)\<close> returns 1:
  the wraparound makes (0,0) the lower right diagonal neighbour of (2,2).
\<close>

theorem countNeighbors_wrap_corner:
  "countNeighbors [[True, False, False], [False, False, False], [False, False, False]] 2 2
     = Inr 1"
  by (simp add: countNeighbors_def probe_def js_rem_def js_index_def)






section \<open>The step\<close>

lemma mapE_Inr: "(\<And>a. a \<in> set xs \<Longrightarrow> f a = Inr (h a)) \<Longrightarrow> mapE f xs = Inr (map h xs)"
  by (induction xs) simp_all

lemma update_with_countNeighbors: "update_with (countNeighbors g) g = Inr (next_cells g)"
  unfolding update_with_def next_cells_def
proof (rule mapE_Inr)
  fix a assume a: "a \<in> set (enumerate 0 g)"
  obtain i row where [simp]: "a = (i, row)" by (cases a)
  have i: "i < length g" using a by (simp add: in_set_enumerate_eq)
  have "mapE (\<lambda>(j, cell). case countNeighbors g (int i) (int j) of
                Inl e \<Rightarrow> Inl e
              | Inr neighbors \<Rightarrow> Inr (neighbors = 3 \<or> (cell \<and> neighbors = 2))) (enumerate 0 row)
      = Inr (map (\<lambda>(j, cell). live_around g (int i) (int j) = 3
                            \<or> (cell \<and> live_around g (int i) (int j) = 2)) (enumerate 0 row))"
    by (rule mapE_Inr) (use i in \<open>auto simp: countNeighbors_in_rows\<close>)
  then show "(case a of (i, row) \<Rightarrow> mapE (\<lambda>(j, cell). case countNeighbors g (int i) (int j) of
                Inl e \<Rightarrow> Inl e
              | Inr neighbors \<Rightarrow> Inr (neighbors = 3 \<or> (cell \<and> neighbors = 2))) (enumerate 0 row))
     = Inr (case a of (i, row) \<Rightarrow> map (\<lambda>(j, cell). live_around g (int i) (int j) = 3
                            \<or> (cell \<and> live_around g (int i) (int j) = 2)) (enumerate 0 row))"
    by simp
qed

lemma length_next_cells: "length (next_cells g) = length g"
  by (simp add: next_cells_def)

lemma length_next_cells_row: "i < length g \<Longrightarrow> length (next_cells g ! i) = length (g ! i)"
  by (simp add: next_cells_def nth_enumerate_eq)

lemma next_cells_nth:
  "i < length g \<Longrightarrow> j < length (g ! i) \<Longrightarrow>
   next_cells g ! i ! j = (live_around g (int i) (int j) = 3 \<or> (g ! i ! j \<and> live_around g (int i) (int j) = 2))"
  by (simp add: next_cells_def nth_enumerate_eq)

lemma map_length_next_cells: "map length (next_cells g) = map length g"
  by (rule nth_equalityI) (simp_all add: length_next_cells length_next_cells_row)

lemma draw_with_countNeighbors: "draw_with (countNeighbors g) g = Inr (painting g)"
proof -
  have "mapE (\<lambda>(i, row).
                   case mapE (\<lambda>(j, cell).
                                if cell
                                then (case countNeighbors g (int i) (int j) of
                                        Inl e \<Rightarrow> Inl e
                                      | Inr neighbors \<Rightarrow> Inr [drawCell i j neighbors])
                                else Inr [])
                          (enumerate 0 row) of
                     Inl e \<Rightarrow> Inl e
                   | Inr painted \<Rightarrow> Inr (concat painted))
             (enumerate 0 g)
     = Inr (map (\<lambda>(i, row). concat (map (\<lambda>(j, cell).
                                   if cell then [drawCell i j (live_around g (int i) (int j))]
                                   else [])
                              (enumerate 0 row))) (enumerate 0 g))"
  proof (rule mapE_Inr)
    fix a assume a: "a \<in> set (enumerate 0 g)"
    obtain i row where [simp]: "a = (i, row)" by (cases a)
    have i: "i < length g" using a by (simp add: in_set_enumerate_eq)
    have "mapE (\<lambda>(j, cell). if cell
                                then (case countNeighbors g (int i) (int j) of
                                        Inl e \<Rightarrow> Inl e
                                      | Inr neighbors \<Rightarrow> Inr [drawCell i j neighbors])
                                else Inr []) (enumerate 0 row)
      = Inr (map (\<lambda>(j, cell). if cell then [drawCell i j (live_around g (int i) (int j))]
                                   else []) (enumerate 0 row))"
      by (rule mapE_Inr) (use i in \<open>auto simp: countNeighbors_in_rows\<close>)
    then show "(case a of (i, row) \<Rightarrow>
                   case mapE (\<lambda>(j, cell).
                                if cell
                                then (case countNeighbors g (int i) (int j) of
                                        Inl e \<Rightarrow> Inl e
                                      | Inr neighbors \<Rightarrow> Inr [drawCell i j neighbors])
                                else Inr [])
                          (enumerate 0 row) of
                     Inl e \<Rightarrow> Inl e
                   | Inr painted \<Rightarrow> Inr (concat painted))
       = Inr (case a of (i, row) \<Rightarrow> concat (map (\<lambda>(j, cell).
                                   if cell then [drawCell i j (live_around g (int i) (int j))]
                                   else [])
                              (enumerate 0 row)))"
      by simp
  qed
  then show ?thesis by (simp add: draw_with_def painting_def)
qed

lemma update_eq: "update s = Inr (s\<lparr>grid := next_cells (grid s)\<rparr>)"
  by (simp add: update_def update_with_countNeighbors)

lemma draw_eq: "draw s = Inr (s\<lparr>frames := frames s @ [painting (grid s)]\<rparr>)"
  by (simp add: draw_def draw_with_countNeighbors)

text \<open>
  C2. \<^verbatim>\<open>update\<close> returns, and each cell of the new grid is alive exactly when its
  neighbour count in the prior grid is 3, or it was alive and the count is 2.
\<close>

theorem update_conway_rule:
  assumes "row < length (grid s)" "col < length (grid s ! row)"
  shows "\<exists>s' n. update s = Inr s' \<and> countNeighbors (grid s) (int row) (int col) = Inr n \<and>
           (grid s' ! row ! col \<longleftrightarrow> n = 3 \<or> (grid s ! row ! col \<and> n = 2))"
  using assms by (simp add: update_eq countNeighbors_in_rows next_cells_nth)

theorem update_conway_rule_witness:
  "1 < length (grid page_stopped) \<and> 1 < length (grid page_stopped ! 1) \<and>
   countNeighbors (grid page_stopped) 1 1 = Inr 3 \<and>
   (\<exists>s'. update page_stopped = Inr s' \<and> grid s' ! 1 ! 1)"
proof -
  have h1: "1 < length (grid page_stopped)" and h2: "1 < length (grid page_stopped ! 1)"
    by (simp_all add: page_stopped_def)
  have c: "countNeighbors (grid page_stopped) (int 1) (int 1) = Inr 3"
    by (simp add: page_stopped_def countNeighbors_def probe_def js_rem_def js_index_def)
  show ?thesis using update_conway_rule[OF h1 h2] c h1 h2 by auto
qed

lemma in_row_major: "(r, c) \<in> set (row_major g) \<longleftrightarrow> r < length g \<and> c < length (g ! r)"
proof
  assume "(r, c) \<in> set (row_major g)"
  then show "r < length g \<and> c < length (g ! r)"
    by (auto simp: row_major_def in_set_enumerate_eq)
next
  assume a: "r < length g \<and> c < length (g ! r)"
  then have m: "(r, g ! r) \<in> set (enumerate 0 g)" by (simp add: in_set_enumerate_eq)
  have cell: "(r, c) \<in> set (map (\<lambda>j. (r, j)) [0..<length (g ! r)])" using a by simp
  have "map (\<lambda>j. (r, j)) [0..<length (g ! r)]
          \<in> (\<lambda>(i, row). map (\<lambda>j. (i, j)) [0..<length row]) ` set (enumerate 0 g)"
    by (rule image_eqI[where x = "(r, g ! r)"]) (simp_all add: m)
  then have "set (map (\<lambda>j. (r, j)) [0..<length (g ! r)])
          \<in> set ` (\<lambda>(i, row). map (\<lambda>j. (i, j)) [0..<length row]) ` set (enumerate 0 g)"
    by (rule imageI)
  then have "(r, c) \<in> \<Union> (set ` (\<lambda>(i, row). map (\<lambda>j. (i, j)) [0..<length row]) ` set (enumerate 0 g))"
    using cell by (rule UnionI)
  then show "(r, c) \<in> set (row_major g)"
    by (simp only: row_major_def set_concat set_map)
qed

lemma write_row_length: "length (b[r0 := (b ! r0)[c0 := v]] ! r) = length (b ! r)"
proof (cases "r0 < length b")
  case True
  then show ?thesis by (cases "r = r0") (simp_all add: nth_list_update)
next
  case False
  then show ?thesis by (simp add: list_update_beyond)
qed

lemma write_nth:
  "r < length b \<Longrightarrow> c < length (b ! r) \<Longrightarrow>
   b[r0 := (b ! r0)[c0 := v]] ! r ! c = (if r = r0 \<and> c = c0 then v else b ! r ! c)"
  by (cases "r = r0") (simp_all add: nth_list_update)

lemma write_shape: "map length (b[r := (b ! r)[c := v]]) = map length b"
  by (rule nth_equalityI) (simp_all add: write_row_length)

lemma step_in_order_shape:
  assumes "\<And>r c. (r, c) \<in> set order \<Longrightarrow> r < length g"
  shows "\<exists>b'. step_in_order g order b = Inr b' \<and> map length b' = map length b"
  using assms
proof (induction order arbitrary: b)
  case Nil
  then show ?case by simp
next
  case (Cons p order)
  obtain r c where p: "p = (r, c)" by (cases p)
  have r: "r < length g" using Cons.prems[of r c] p by simp
  let ?b = "b[r := (b ! r)[c := (live_around g (int r) (int c) = 3
                \<or> (g ! r ! c \<and> live_around g (int r) (int c) = 2))]]"
  have "\<exists>b'. step_in_order g order ?b = Inr b' \<and> map length b' = map length ?b"
    by (rule Cons.IH) (use Cons.prems in auto)
  then show ?case using r p by (simp add: countNeighbors_in_rows write_shape)
qed

lemma step_in_order_cell:
  assumes "\<And>r c. (r, c) \<in> set order \<Longrightarrow> r < length g"
    and "step_in_order g order b = Inr b'" "r < length b" "c < length (b ! r)"
  shows "b' ! r ! c = (if (r, c) \<in> set order
                       then live_around g (int r) (int c) = 3
                            \<or> (g ! r ! c \<and> live_around g (int r) (int c) = 2)
                       else b ! r ! c)"
  using assms
proof (induction order arbitrary: b)
  case Nil
  then show ?case by simp
next
  case (Cons p order)
  obtain r0 c0 where p: "p = (r0, c0)" by (cases p)
  have r0: "r0 < length g" using Cons.prems(1)[of r0 c0] p by simp
  let ?v = "live_around g (int r0) (int c0) = 3
                \<or> (g ! r0 ! c0 \<and> live_around g (int r0) (int c0) = 2)"
  let ?b = "b[r0 := (b ! r0)[c0 := ?v]]"
  have run: "step_in_order g order ?b = Inr b'"
    using Cons.prems(2) r0 p by (simp add: countNeighbors_in_rows)
  have rb: "r < length ?b" using Cons.prems(3) by simp
  have cb: "c < length (?b ! r)" using Cons.prems(4) by (simp only: write_row_length)
  have ih: "b' ! r ! c = (if (r, c) \<in> set order
                       then live_around g (int r) (int c) = 3
                            \<or> (g ! r ! c \<and> live_around g (int r) (int c) = 2)
                       else ?b ! r ! c)"
    by (rule Cons.IH[OF _ run rb cb]) (use Cons.prems(1) in auto)
  have here: "?b ! r ! c = (if r = r0 \<and> c = c0 then ?v else b ! r ! c)"
    using Cons.prems(3,4) by (rule write_nth)
  show ?case unfolding ih here using p by (cases "r = r0 \<and> c = c0") auto
qed

lemma step_in_order_next_cells:
  assumes "set order = set (row_major g)" "map length b = map length g"
  shows "step_in_order g order b = Inr (next_cells g)"
proof -
  have inr: "\<And>r c. (r, c) \<in> set order \<Longrightarrow> r < length g"
    using assms(1) by (simp add: in_row_major)
  obtain b' where b': "step_in_order g order b = Inr b'" and sh: "map length b' = map length b"
    using step_in_order_shape[where order = order and g = g and b = b] inr by blast
  have lb: "length b = length g"
    using arg_cong[OF assms(2), of length] by simp
  have lb': "length b' = length g"
    using arg_cong[OF sh, of length] lb by simp
  have rowlen: "length (b ! i) = length (g ! i)" if "i < length g" for i
  proof -
    have "map length b ! i = map length g ! i" by (simp only: assms(2))
    then show ?thesis using that lb by simp
  qed
  have rowlen': "length (b' ! i) = length (g ! i)" if "i < length g" for i
  proof -
    have "map length b' ! i = map length g ! i" by (simp only: sh assms(2))
    then show ?thesis using that lb' by simp
  qed
  have "b' = next_cells g"
  proof (rule nth_equalityI)
    show "length b' = length (next_cells g)" by (simp add: lb' length_next_cells)
  next
    fix i assume "i < length b'"
    then have i: "i < length g" by (simp add: lb')
    show "b' ! i = next_cells g ! i"
    proof (rule nth_equalityI)
      show "length (b' ! i) = length (next_cells g ! i)"
        using i by (simp add: rowlen' length_next_cells_row)
    next
      fix j assume "j < length (b' ! i)"
      then have j: "j < length (g ! i)" using i by (simp add: rowlen')
      have mem: "(i, j) \<in> set order" using assms(1) i j by (simp add: in_row_major)
      have "b' ! i ! j = (if (i, j) \<in> set order
                       then live_around g (int i) (int j) = 3
                            \<or> (g ! i ! j \<and> live_around g (int i) (int j) = 2)
                       else b ! i ! j)"
        by (rule step_in_order_cell[OF inr b']) (use i j lb rowlen in auto)
      then show "b' ! i ! j = next_cells g ! i ! j"
        using mem i j by (simp add: next_cells_nth)
    qed
  qed
  then show ?thesis using b' by simp
qed

lemma length_le_widest: "i < length g \<Longrightarrow> length (g ! i) \<le> foldr max (map length g) 0"
proof (induction g arbitrary: i)
  case Nil
  then show ?case by simp
next
  case (Cons r g)
  then show ?case by (cases i) (simp_all add: le_max_iff_disj)
qed

lemma set_col_major: "set (col_major g) = set (row_major g)"
proof -
  have "(r, c) \<in> set (col_major g) \<longleftrightarrow> (r, c) \<in> set (row_major g)" for r c
    using length_le_widest[of r g] by (auto simp: col_major_def in_row_major)
  then show ?thesis by auto
qed

text \<open>
  C3. \<^verbatim>\<open>update\<close> computes the grid of the simultaneous step: a traversal that visits
  the cells in any order (each cell at least once), writes into a separate grid of the
  same shape with any contents, and reads only the prior grid, ends with the grid that
  \<^verbatim>\<open>update\<close> assigns.
\<close>

theorem update_order_independent:
  assumes "set order = set (row_major (grid s))" "map length next = map length (grid s)"
  shows "\<exists>s'. update s = Inr s' \<and> step_in_order (grid s) order next = Inr (grid s')"
  using step_in_order_next_cells[OF assms] by (simp add: update_eq)

theorem update_order_independent_witness:
  "set (col_major (grid page_stopped)) = set (row_major (grid page_stopped)) \<and>
   map length (replicate 3 (replicate 3 False)) = map length (grid page_stopped) \<and>
   (\<exists>s'. update page_stopped = Inr s' \<and>
      step_in_order (grid page_stopped) (col_major (grid page_stopped))
        (replicate 3 (replicate 3 False)) = Inr (grid s'))"
proof -
  have h1: "set (col_major (grid page_stopped)) = set (row_major (grid page_stopped))"
    by (rule set_col_major)
  have h2: "map length (replicate 3 (replicate 3 False)) = map length (grid page_stopped)"
    by (simp add: page_stopped_def numeral_3_eq_3)
  show ?thesis using update_order_independent[OF h1 h2] h1 h2 by simp
qed

section \<open>Initialisation and the shape of the grid\<close>

lemma grid_initGrid:
  "grid (initGrid s) =
     map (\<lambda>r. map (\<lambda>c. INITIAL_ALIVE_PROBABILITY CONFIG
                          < draws s (r * (innerWidth s div CELL_SIZE CONFIG) + c))
                [0..<innerWidth s div CELL_SIZE CONFIG])
       [0..<innerHeight s div CELL_SIZE CONFIG]"
  by (simp add: initGrid_def calculateGridDimensions_def)

lemma initGrid_keeps:
  "isRunning (initGrid s) = isRunning s" "frames (initGrid s) = frames s"
  "scheduled (initGrid s) = scheduled s" "innerWidth (initGrid s) = innerWidth s"
  "innerHeight (initGrid s) = innerHeight s"
  by (simp_all add: initGrid_def calculateGridDimensions_def)

lemma map_length_initGrid:
  "map length (grid (initGrid s))
     = replicate (innerHeight s div CELL_SIZE CONFIG) (innerWidth s div CELL_SIZE CONFIG)"
  by (simp add: grid_initGrid map_replicate_const comp_def)

lemma rectangular_map_length:
  "rectangular g = (case map length g of [] \<Rightarrow> True | n # ns \<Rightarrow> list_all (\<lambda>m. m = n) ns)"
  by (cases g) (simp_all add: rectangular_def list_all_iff)

lemma rectangular_replicate: "map length g = replicate k n \<Longrightarrow> rectangular g"
  by (cases k) (auto simp: rectangular_map_length list_all_iff)

lemma rectangular_same_shape: "map length g' = map length g \<Longrightarrow> rectangular g' = rectangular g"
  by (simp add: rectangular_map_length)

lemma rectangular_initGrid: "rectangular (grid (initGrid s))"
  by (rule rectangular_replicate[OF map_length_initGrid])

lemma reset_eq:
  "reset s = Inr ((initGrid (s\<lparr>isRunning := False\<rparr>))
                   \<lparr>frames := frames s @ [painting (grid (initGrid s))]\<rparr>)"
  by (simp add: reset_def draw_eq initGrid_keeps grid_initGrid)

text \<open>
  C9. The grid that \<^verbatim>\<open>initGrid\<close> builds is rectangular, so the grid is rectangular
  after construction or a resize (\<^verbatim>\<open>initializeCanvas\<close>) and after \<^verbatim>\<open>reset\<close>;
  \<^verbatim>\<open>update\<close> keeps the number of rows and the length of every row, hence maps a
  rectangular grid to a rectangular grid.
\<close>

theorem grids_rectangular:
  "rectangular (grid (initGrid s)) \<and>
   rectangular (grid (initializeCanvas s)) \<and>
   rectangular (grid (new_GameOfLife w0 h0 random)) \<and>
   (\<exists>s'. reset s = Inr s' \<and> rectangular (grid s')) \<and>
   (\<exists>s'. fire s (Resize width height) = Inr s' \<and> rectangular (grid s')) \<and>
   (\<exists>s'. update s = Inr s' \<and> length (grid s') = length (grid s) \<and>
         map length (grid s') = map length (grid s) \<and>
         (rectangular (grid s) \<longrightarrow> rectangular (grid s')))"
proof -
  have a: "rectangular (grid (initGrid s))" by (rule rectangular_initGrid)
  have b: "rectangular (grid (initializeCanvas s))"
    unfolding initializeCanvas_def by (rule rectangular_initGrid)
  have c: "\<exists>s'. reset s = Inr s' \<and> rectangular (grid s')"
    by (simp add: reset_eq rectangular_initGrid)
  have d: "\<exists>s'. fire s (Resize width height) = Inr s' \<and> rectangular (grid s')"
    by (simp add: initializeCanvas_def rectangular_initGrid)
  have e: "\<exists>s'. update s = Inr s' \<and> length (grid s') = length (grid s) \<and>
         map length (grid s') = map length (grid s) \<and>
         (rectangular (grid s) \<longrightarrow> rectangular (grid s'))"
    by (simp add: update_eq length_next_cells map_length_next_cells
          rectangular_same_shape[OF map_length_next_cells])
  have n: "rectangular (grid (new_GameOfLife w0 h0 random))"
    unfolding new_GameOfLife_def initializeCanvas_def by (rule rectangular_initGrid)
  show ?thesis using a b n c d e by blast
qed

theorem grids_rectangular_witness:
  "rectangular (grid page_stopped) \<and>
   (\<exists>s'. update page_stopped = Inr s' \<and> rectangular (grid s') \<and> map length (grid s') = [3, 3, 3])"
proof -
  have r: "rectangular (grid page_stopped)" by (simp add: page_stopped_def rectangular_def)
  have m: "map length (grid page_stopped) = [3, 3, 3]" by (simp add: page_stopped_def)
  show ?thesis using grids_rectangular[where s = page_stopped and ?w0.0 = 30 and ?h0.0 = 30
        and random = "\<lambda>k. 1 / 2" and width = 30 and height = 30] r m by auto
qed

section \<open>A grid without cells\<close>

lemma mapE_no_cells:
  fixes f :: "nat \<times> 'c list \<Rightarrow> error + 'v"
  assumes "\<And>i. f (i, []) = Inr v"
  shows "mapE f (enumerate 0 (replicate k [])) = Inr (replicate k v)"
proof -
  define xs :: "(nat \<times> 'c list) list" where "xs = enumerate 0 (replicate k [])"
  have "mapE f xs = Inr (map (\<lambda>a. v) xs)"
  proof (rule mapE_Inr)
    fix a assume "a \<in> set xs"
    then have "snd a = []" by (auto simp: xs_def in_set_enumerate_eq)
    then have "a = (fst a, [])" by (cases a) simp
    then show "f a = Inr v" using assms[of "fst a"] by simp
  qed
  then show ?thesis by (simp add: xs_def map_replicate_const)
qed

lemma update_with_no_cells: "update_with cn (replicate k []) = Inr (replicate k [])"
  unfolding update_with_def by (rule mapE_no_cells) simp

lemma draw_with_no_cells: "draw_with cn (replicate k []) = Inr []"
proof -
  have "mapE (\<lambda>(i, row).
                   case mapE (\<lambda>(j, cell).
                                if cell
                                then (case cn (int i) (int j) of
                                        Inl e \<Rightarrow> Inl e
                                      | Inr neighbors \<Rightarrow> Inr [drawCell i j neighbors])
                                else Inr [])
                          (enumerate 0 row) of
                     Inl e \<Rightarrow> Inl e
                   | Inr painted \<Rightarrow> Inr (concat painted))
             (enumerate 0 (replicate k [])) = Inr (replicate k [])"
    by (rule mapE_no_cells) simp
  then show ?thesis by (simp add: draw_with_def)
qed

lemma countNeighbors_no_rows: "countNeighbors [] row col = Inl TypeError"
  by (simp add: countNeighbors_def probe_def)

lemma initGrid_no_cells:
  assumes "innerHeight s < CELL_SIZE CONFIG \<or> innerWidth s < CELL_SIZE CONFIG"
  shows "grid (initGrid s) = replicate (innerHeight s div CELL_SIZE CONFIG) []"
proof (cases "innerWidth s < CELL_SIZE CONFIG")
  case True
  then show ?thesis by (simp add: grid_initGrid map_replicate_const)
next
  case False
  then have "innerHeight s < CELL_SIZE CONFIG" using assms by simp
  then show ?thesis by (simp add: grid_initGrid)
qed

text \<open>
  C10. When the window is lower or narrower than one cell, \<^verbatim>\<open>initGrid\<close> builds a grid
  without cells: one empty row per whole cell height, none when the window is lower than
  a cell. On such a grid \<^verbatim>\<open>update\<close> returns the same grid and \<^verbatim>\<open>draw\<close> paints nothing,
  whatever the method called for the neighbour count would do, so that method is not
  called; \<^verbatim>\<open>reset\<close> returns with such a grid and one empty frame; and \<^verbatim>\<open>countNeighbors\<close>
  itself throws on the grid without rows.
\<close>

theorem no_cells_no_error:
  assumes "innerHeight s < CELL_SIZE CONFIG \<or> innerWidth s < CELL_SIZE CONFIG"
  shows "\<exists>k. k = innerHeight s div CELL_SIZE CONFIG \<and>
           (innerHeight s < CELL_SIZE CONFIG \<longrightarrow> k = 0) \<and>
           grid (initGrid s) = replicate k [] \<and>
           (\<forall>cn. update_with cn (replicate k []) = Inr (replicate k []) \<and>
                 draw_with cn (replicate k []) = Inr []) \<and>
           update (initGrid s) = Inr (initGrid s) \<and>
           draw (initGrid s) = Inr ((initGrid s)\<lparr>frames := frames s @ [[]]\<rparr>) \<and>
           (\<exists>s'. reset s = Inr s' \<and> grid s' = replicate k [] \<and> frames s' = frames s @ [[]]) \<and>
           (\<forall>row col. countNeighbors [] row col = Inl TypeError)"
proof -
  let ?k = "innerHeight s div CELL_SIZE CONFIG"
  have g: "grid (initGrid s) = replicate ?k []" by (rule initGrid_no_cells[OF assms])
  have u: "update (initGrid s) = Inr (initGrid s)"
  proof -
    have "(initGrid s)\<lparr>grid := replicate ?k []\<rparr> = initGrid s"
      by (simp add: g[symmetric])
    then show ?thesis by (simp add: update_def g update_with_no_cells)
  qed
  have d: "draw (initGrid s) = Inr ((initGrid s)\<lparr>frames := frames s @ [[]]\<rparr>)"
    by (simp add: draw_def g draw_with_no_cells initGrid_keeps)
  have g0: "grid (initGrid (s\<lparr>isRunning := False\<rparr>)) = replicate ?k []"
    using initGrid_no_cells[of "s\<lparr>isRunning := False\<rparr>"] assms by simp
  have r: "\<exists>s'. reset s = Inr s' \<and> grid s' = replicate ?k [] \<and> frames s' = frames s @ [[]]"
    by (simp add: reset_def draw_def g0 draw_with_no_cells initGrid_keeps)
  show ?thesis
    using g u d r by (simp add: update_with_no_cells draw_with_no_cells countNeighbors_no_rows)
qed

theorem no_cells_no_error_witness:
  "(innerHeight page_narrow < CELL_SIZE CONFIG \<or> innerWidth page_narrow < CELL_SIZE CONFIG) \<and>
   grid (initGrid page_narrow) = [[], []] \<and>
   update_with (\<lambda>i j. Inl TypeError) [[], []] = Inr [[], []] \<and>
   draw_with (\<lambda>i j. Inl TypeError) [[], []] = Inr [] \<and>
   update (initGrid page_narrow) = Inr (initGrid page_narrow)"
proof -
  have h: "innerHeight page_narrow < CELL_SIZE CONFIG \<or> innerWidth page_narrow < CELL_SIZE CONFIG"
    by (simp add: page_narrow_def page_stopped_def CONFIG_def)
  have k: "innerHeight page_narrow div CELL_SIZE CONFIG = 2"
    by (simp add: page_narrow_def page_stopped_def CONFIG_def)
  have two: "replicate 2 [] = [[], []]" by (simp add: numeral_2_eq_2)
  have all: "grid (initGrid page_narrow) = replicate 2 [] \<and>
      (\<forall>cn. update_with cn (replicate 2 []) = Inr (replicate 2 []) \<and>
            draw_with cn (replicate 2 []) = Inr []) \<and>
      update (initGrid page_narrow) = Inr (initGrid page_narrow)"
    using no_cells_no_error[OF h] by (simp add: k)
  have cn: "update_with (\<lambda>i j. Inl TypeError) (replicate 2 []) = Inr (replicate 2 []) \<and>
            draw_with (\<lambda>i j. Inl TypeError) (replicate 2 []) = Inr []"
    using all by blast
  show ?thesis using h all cn by (simp only: two)
qed

section \<open>The controller\<close>

lemma gameLoop_eq:
  "gameLoop s =
     Inr (if isRunning s
          then s\<lparr>grid := next_cells (grid s),
                 frames := frames s @ [painting (next_cells (grid s))],
                 scheduled := scheduled s @ [FRAME_DELAY CONFIG]\<rparr>
          else s)"
  by (simp add: gameLoop_def update_eq draw_eq)

lemma toggle_eq:
  "toggle s =
     Inr (if isRunning s
          then s\<lparr>isRunning := False\<rparr>
          else s\<lparr>isRunning := True,
                 grid := next_cells (grid s),
                 frames := frames s @ [painting (next_cells (grid s))],
                 scheduled := scheduled s @ [FRAME_DELAY CONFIG]\<rparr>)"
  by (simp add: toggle_def gameLoop_eq Let_def)

lemma tick_stopped:
  "\<not> isRunning s \<Longrightarrow> fire s Tick = Inr (s\<lparr>scheduled := tl (scheduled s)\<rparr>)"
  by (cases "scheduled s") (simp_all add: gameLoop_eq)

lemma ticks_stopped:
  "\<not> isRunning s \<Longrightarrow> run s (replicate n Tick) = Inr (s\<lparr>scheduled := drop n (scheduled s)\<rparr>)"
proof (induction n arbitrary: s)
  case 0
  then show ?case by simp
next
  case (Suc n)
  have st: "\<not> isRunning (s\<lparr>scheduled := tl (scheduled s)\<rparr>)" using Suc.prems by simp
  have f: "fire s Tick = Inr (s\<lparr>scheduled := tl (scheduled s)\<rparr>)"
    by (rule tick_stopped[OF Suc.prems])
  have "run s (replicate (Suc n) Tick)
          = run (s\<lparr>scheduled := tl (scheduled s)\<rparr>) (replicate n Tick)"
    by (simp add: f del: fire.simps)
  also have "\<dots> = Inr (s\<lparr>scheduled := drop n (tl (scheduled s))\<rparr>)"
    using Suc.IH[OF st] by simp
  finally show ?case by (simp add: drop_Suc)
qed

text \<open>
  C5. The control that stops a running controller only clears the flag. While the flag
  is clear, \<^verbatim>\<open>gameLoop\<close> changes nothing, and any number of scheduled callbacks coming
  due leave the grid and the painted frames as they are and schedule nothing: they only
  leave the list of scheduled callbacks.
\<close>

theorem no_step_while_stopped:
  "(isRunning s \<longrightarrow> toggle s = Inr (s\<lparr>isRunning := False\<rparr>)) \<and>
   (\<not> isRunning s \<longrightarrow>
      gameLoop s = Inr s \<and>
      fire s Tick = Inr (s\<lparr>scheduled := tl (scheduled s)\<rparr>) \<and>
      run s (replicate n Tick) = Inr (s\<lparr>scheduled := drop n (scheduled s)\<rparr>))"
  by (simp add: toggle_eq gameLoop_eq tick_stopped ticks_stopped del: fire.simps)

theorem no_step_while_stopped_witness:
  "isRunning page_running \<and> \<not> isRunning page_stopped \<and>
   toggle page_running = Inr (page_stopped\<lparr>scheduled := [FRAME_DELAY CONFIG]\<rparr>) \<and>
   run (page_stopped\<lparr>scheduled := [FRAME_DELAY CONFIG]\<rparr>) [Tick, Tick] = Inr page_stopped"
proof -
  let ?s = "page_stopped\<lparr>scheduled := [FRAME_DELAY CONFIG]\<rparr>"
  have r: "isRunning page_running" by (simp add: page_running_def)
  have s: "\<not> isRunning ?s" "\<not> isRunning page_stopped"
    by (simp_all add: page_stopped_def)
  have e: "page_running\<lparr>isRunning := False\<rparr> = ?s"
    by (simp add: page_running_def page_stopped_def)
  have e2: "?s\<lparr>scheduled := drop 2 (scheduled ?s)\<rparr> = page_stopped"
    by (simp add: page_stopped_def)
  have t: "replicate 2 Tick = [Tick, Tick]" by (simp add: numeral_2_eq_2)
  have a: "toggle page_running = Inr ?s"
    using no_step_while_stopped[of page_running 0] r e by simp
  have b: "run ?s (replicate 2 Tick) = Inr (?s\<lparr>scheduled := drop 2 (scheduled ?s)\<rparr>)"
    using no_step_while_stopped[of ?s 2] s(1) by blast
  have c: "run ?s [Tick, Tick] = Inr page_stopped"
    using b by (simp only: e2 t)
  show ?thesis using r s(2) a c by blast
qed

lemma update_page_stopped:
  "update_with (countNeighbors (grid page_stopped)) (grid page_stopped)
     = Inr [[True, True, True], [True, True, True], [True, True, True]]"
  by (simp add: page_stopped_def update_with_def countNeighbors_def probe_def js_rem_def
        js_index_def enumerate_eq_zip upt_rec)

text \<open>
  C4, as the program has it. The only run control is \<^verbatim>\<open>toggle\<close>, and it always flips the
  flag: on a running controller it clears the flag and does nothing else; on a stopped
  one it sets the flag and runs one pass of \<^verbatim>\<open>gameLoop\<close> at once, which replaces the grid
  by the next generation, paints it and schedules one callback.
\<close>

theorem toggle_flips:
  "\<exists>s'. toggle s = Inr s' \<and> isRunning s' = (\<not> isRunning s) \<and>
        (isRunning s \<longrightarrow> s' = s\<lparr>isRunning := False\<rparr>) \<and>
        (\<not> isRunning s \<longrightarrow>
           (\<exists>g f. update_with (countNeighbors (grid s)) (grid s) = Inr g \<and>
                  draw_with (countNeighbors g) g = Inr f \<and>
                  s' = s\<lparr>isRunning := True, grid := g, frames := frames s @ [f],
                         scheduled := scheduled s @ [FRAME_DELAY CONFIG]\<rparr>))"
  by (simp add: toggle_eq update_with_countNeighbors draw_with_countNeighbors)

theorem toggle_flips_witness:
  "isRunning page_running \<and> \<not> isRunning page_stopped \<and>
   observe (toggle page_running)
     = Some (False, [[True, True, False], [True, False, False], [False, False, False]], 0, [500]) \<and>
   observe (toggle page_stopped)
     = Some (True, [[True, True, True], [True, True, True], [True, True, True]], 1, [500])"
proof -
  have r: "isRunning page_running" "\<not> isRunning page_stopped"
    by (simp_all add: page_running_def page_stopped_def)
  note u = update_page_stopped
  have a0: "toggle page_running = Inr (page_running\<lparr>isRunning := False\<rparr>)"
    using toggle_flips[of page_running] r(1) by auto
  have a: "observe (toggle page_running)
     = Some (False, [[True, True, False], [True, False, False], [False, False, False]], 0, [500])"
    unfolding a0 by (simp add: observe_def page_running_def page_stopped_def CONFIG_def)
  have b0: "\<exists>f. toggle page_stopped
     = Inr (page_stopped\<lparr>isRunning := True,
              grid := [[True, True, True], [True, True, True], [True, True, True]],
              frames := frames page_stopped @ [f],
              scheduled := scheduled page_stopped @ [FRAME_DELAY CONFIG]\<rparr>)"
    using toggle_flips[of page_stopped] r(2) u by auto
  have b: "observe (toggle page_stopped)
     = Some (True, [[True, True, True], [True, True, True], [True, True, True]], 1, [500])"
    using b0 by (auto simp: observe_def page_stopped_def CONFIG_def)
  show ?thesis using r a b by simp
qed

text \<open>
  C4, as the claim states it, fails on both halves: the control that starts the
  controller, used on a running controller, stops it; used on a stopped controller it
  is the control that stops, and it starts the controller, steps the grid, paints a frame
  and schedules a callback.
\<close>

theorem toggle_not_idempotent_counterexample:
  "observe (Inr page_running)
     = Some (True, [[True, True, False], [True, False, False], [False, False, False]], 0, [500]) \<and>
   observe (fire page_running ToggleGame)
     = Some (False, [[True, True, False], [True, False, False], [False, False, False]], 0, [500]) \<and>
   observe (Inr page_stopped)
     = Some (False, [[True, True, False], [True, False, False], [False, False, False]], 0, []) \<and>
   observe (fire page_stopped ToggleGame)
     = Some (True, [[True, True, True], [True, True, True], [True, True, True]], 1, [500])"
proof -
  note u = update_page_stopped
  have n: "next_cells (grid page_stopped) = [[True, True, True], [True, True, True], [True, True, True]]"
    using u by (simp add: update_with_countNeighbors)
  have g: "grid page_stopped = [[True, True, False], [True, False, False], [False, False, False]]"
    "isRunning page_stopped = False" "frames page_stopped = []" "scheduled page_stopped = []"
    by (simp_all add: page_stopped_def)
  have n': "next_cells [[True, True, False], [True, False, False], [False, False, False]]
              = [[True, True, True], [True, True, True], [True, True, True]]"
    using n by (simp only: g(1))
  show ?thesis
    by (simp add: observe_def toggle_eq n' g page_running_def CONFIG_def)
qed

section \<open>Reset and the initial probability\<close>

lemma initGrid_alive_iff:
  assumes "r < innerHeight s div CELL_SIZE CONFIG" "c < innerWidth s div CELL_SIZE CONFIG"
  shows "grid (initGrid s) ! r ! c
           \<longleftrightarrow> INITIAL_ALIVE_PROBABILITY CONFIG < draws s (r * (innerWidth s div CELL_SIZE CONFIG) + c)"
  using assms by (simp add: grid_initGrid)

text \<open>
  C1 does not hold of the program. \<^verbatim>\<open>initGrid\<close> makes a cell alive when its draw is
  greater than \<^verbatim>\<open>INITIAL_ALIVE_PROBABILITY\<close>: of the draws in [0, 1) those in (0.3, 1),
  an interval of length 0.7. In a window of two cells the draws 0.375 and 0.875, which no
  interval of length 0.3 holds together, both give a live cell, and the draws 0.125 and
  0.25, below 0.3, both give a dead one.
\<close>

theorem initGrid_alive_above_threshold:
  "grid (initGrid (page_two_cells (3 / 8) (7 / 8))) = [[True, True]] \<and>
   grid (initGrid (page_two_cells (1 / 8) (1 / 4))) = [[False, False]] \<and>
   INITIAL_ALIVE_PROBABILITY CONFIG = 3 / 10 \<and>
   INITIAL_ALIVE_PROBABILITY CONFIG < 7 / 8 - 3 / 8"
  by (simp add: grid_initGrid page_two_cells_def page_stopped_def CONFIG_def upt_rec)

text \<open>
  What \<^verbatim>\<open>reset\<close> does whatever the cells come out as: it returns with the flag clear
  and a grid of \<open>innerHeight div CELL_SIZE\<close> rows of \<open>innerWidth div CELL_SIZE\<close> cells, the
  one \<^verbatim>\<open>initGrid\<close> builds; it adds exactly one frame, the painting of that grid; it
  schedules nothing, and callbacks scheduled earlier that come due afterwards change
  neither the grid nor the frames.
\<close>

lemma reset_state:
  "\<exists>s' f. reset s = Inr s' \<and> \<not> isRunning s' \<and>
      length (grid s') = innerHeight s div CELL_SIZE CONFIG \<and>
      map length (grid s')
        = replicate (innerHeight s div CELL_SIZE CONFIG) (innerWidth s div CELL_SIZE CONFIG) \<and>
      grid s' = grid (initGrid s) \<and>
      draw_with (countNeighbors (grid s')) (grid s') = Inr f \<and>
      frames s' = frames s @ [f] \<and>
      scheduled s' = scheduled s \<and>
      (\<forall>n. run s' (replicate n Tick) = Inr (s'\<lparr>scheduled := drop n (scheduled s')\<rparr>))"
proof -
  let ?s' = "(initGrid (s\<lparr>isRunning := False\<rparr>))\<lparr>frames := frames s @ [painting (grid (initGrid s))]\<rparr>"
  have r: "reset s = Inr ?s'" by (rule reset_eq)
  have st: "\<not> isRunning ?s'" by (simp add: initGrid_keeps)
  have g: "grid ?s' = grid (initGrid s)" by (simp add: grid_initGrid)
  have l: "length (grid ?s') = innerHeight s div CELL_SIZE CONFIG"
    unfolding g by (simp add: grid_initGrid)
  have m: "map length (grid ?s')
        = replicate (innerHeight s div CELL_SIZE CONFIG) (innerWidth s div CELL_SIZE CONFIG)"
    unfolding g by (rule map_length_initGrid)
  have d: "draw_with (countNeighbors (grid ?s')) (grid ?s') = Inr (painting (grid (initGrid s)))"
    unfolding g by (rule draw_with_countNeighbors)
  have f: "frames ?s' = frames s @ [painting (grid (initGrid s))]" by simp
  have sc: "scheduled ?s' = scheduled s" by (simp add: initGrid_keeps)
  have t: "\<forall>n. run ?s' (replicate n Tick) = Inr (?s'\<lparr>scheduled := drop n (scheduled ?s')\<rparr>)"
    using ticks_stopped[OF st] by blast
  show ?thesis
    apply (rule exI[of _ ?s'])
    apply (rule exI[of _ "painting (grid (initGrid s))"])
    using r st l m g d f sc t by blast
qed

text \<open>
  C6 does not hold of the program, by the comparison that C1 is about: \<^verbatim>\<open>reset\<close> fills
  the grid through \<^verbatim>\<open>initGrid\<close>, so a cell of the fresh grid is alive when its draw is
  greater than \<^verbatim>\<open>INITIAL_ALIVE_PROBABILITY\<close>, with probability 0.7 and not the configured
  0.3. On a running page with a window of two cells, \<^verbatim>\<open>reset\<close> stops the controller,
  paints one frame and keeps the one scheduled callback, but the draws 0.375 and 0.875
  leave both cells alive and the draws 0.125 and 0.25 leave both dead.
\<close>

theorem reset_alive_above_threshold:
  "observe (reset ((page_two_cells (3 / 8) (7 / 8))\<lparr>isRunning := True, scheduled := [500]\<rparr>))
     = Some (False, [[True, True]], 1, [500]) \<and>
   observe (reset ((page_two_cells (1 / 8) (1 / 4))\<lparr>isRunning := True, scheduled := [500]\<rparr>))
     = Some (False, [[False, False]], 1, [500]) \<and>
   INITIAL_ALIVE_PROBABILITY CONFIG = 3 / 10"
  by (simp add: observe_def reset_eq grid_initGrid initGrid_keeps page_two_cells_def
        page_stopped_def CONFIG_def upt_rec)

section \<open>Every run of the page\<close>

text \<open>
  No handler throws, and a rectangular grid stays rectangular along any sequence of
  clicks, resizes and callbacks.
\<close>

lemma fire_keeps_rectangular:
  "\<exists>s'. fire s e = Inr s' \<and> (rectangular (grid s) \<longrightarrow> rectangular (grid s'))"
proof (cases e)
  case ToggleGame
  then show ?thesis
    by (simp add: toggle_eq rectangular_same_shape[OF map_length_next_cells])
next
  case ResetGame
  then show ?thesis by (simp add: reset_eq rectangular_initGrid)
next
  case (Resize width height)
  then show ?thesis by (simp add: initializeCanvas_def rectangular_initGrid)
next
  case Tick
  then show ?thesis
    by (cases "scheduled s")
       (simp_all add: gameLoop_eq rectangular_same_shape[OF map_length_next_cells])
qed

lemma run_keeps_rectangular:
  "rectangular (grid s) \<Longrightarrow> \<exists>s'. run s es = Inr s' \<and> rectangular (grid s')"
proof (induction es arbitrary: s)
  case Nil
  then show ?case by simp
next
  case (Cons e es)
  obtain s1 where s1: "fire s e = Inr s1" "rectangular (grid s1)"
    using fire_keeps_rectangular[of s e] Cons.prems by blast
  have "run s (e # es) = run s1 es" by (simp add: s1(1) del: fire.simps)
  then show ?case using Cons.IH[OF s1(2)] by simp
qed

end
